theory Spec2Isabelle
  imports Complex_Main
begin

section \<open>The T2 socket loop of dsa-T2 (T2/socket.py)\<close>

text \<open>
  The theory embeds the two functions of \<^verbatim>\<open>T2/socket.py\<close> that decide what happens to
  a gulp: \<^verbatim>\<open>parse_socket\<close> (the accept / read / validate loop) and the decision part
  of \<^verbatim>\<open>cluster_and_plot\<close>. Sockets, the etcd store and the functions of
  \<^verbatim>\<open>cluster_heimdall\<close> are outside the file; what they return is an input of the
  model and what the loop does to them is recorded in a trace of events.
\<close>

subsection \<open>Strings: \<^verbatim>\<open>str.split\<close>, \<^verbatim>\<open>str.join\<close> and \<^verbatim>\<open>int\<close>\<close>

definition NL :: char where
  "NL = CHR 0x0A"

text \<open>\<^verbatim>\<open>s.split(sep)\<close> for a one-character separator: never the empty list.\<close>

fun split_char :: "char \<Rightarrow> string \<Rightarrow> string list" where
  "split_char sep [] = [[]]"
| "split_char sep (c # cs) =
     (if c = sep then [] # split_char sep cs
      else (case split_char sep cs of
              [] \<Rightarrow> [[c]]
            | l # ls \<Rightarrow> (c # l) # ls))"

text \<open>\<^verbatim>\<open>sep.join(ls)\<close>.\<close>

fun join :: "string \<Rightarrow> string list \<Rightarrow> string" where
  "join sep [] = []"
| "join sep [l] = l"
| "join sep (l # l' # ls) = l @ sep @ join sep (l' # ls)"

text \<open>
  \<^verbatim>\<open>int(s)\<close> on a string whose characters have code points below 256: surrounding
  whitespace is stripped, one sign is allowed, the digits may be grouped by single
  underscores; anything else is the \<^verbatim>\<open>ValueError\<close> of the source, here \<open>None\<close>. The
  whitespace that \<^verbatim>\<open>int\<close> strips is the space, the characters 0x09 to 0x0D, and the
  two non-ASCII spaces U+0085 and U+00A0; the separators 0x1C to 0x1F are not stripped.
  Characters of higher code points and the limit that recent interpreters put on the
  number of digits are not modelled.
\<close>

definition is_space :: "char \<Rightarrow> bool" where
  "is_space c = (c \<in> set [CHR 0x20, CHR 0x09, CHR 0x0A, CHR 0x0B, CHR 0x0C, CHR 0x0D,
                           CHR 0x85, CHR 0xA0])"

definition strip :: "string \<Rightarrow> string" where
  "strip s = rev (dropWhile is_space (rev (dropWhile is_space s)))"

definition digit_val :: "char \<Rightarrow> int option" where
  "digit_val c =
     (let n = of_char c :: nat
      in if 48 \<le> n \<and> n \<le> 57 then Some (int n - 48) else None)"

fun parse_digits :: "bool \<Rightarrow> int \<Rightarrow> string \<Rightarrow> int option" where
  "parse_digits prev acc [] = (if prev then Some acc else None)"
| "parse_digits prev acc (c # cs) =
     (case digit_val c of
        Some d \<Rightarrow> parse_digits True (10 * acc + d) cs
      | None \<Rightarrow> if c = CHR ''_'' \<and> prev then parse_digits False acc cs else None)"

definition py_int :: "string \<Rightarrow> int option" where
  "py_int s =
     (case strip s of
        [] \<Rightarrow> None
      | c # cs \<Rightarrow>
          if c = CHR ''-'' then map_option uminus (parse_digits False 0 cs)
          else if c = CHR ''+'' then parse_digits False 0 cs
          else parse_digits False 0 (c # cs))"

subsection \<open>Reading the accepted connections (lines 117-137)\<close>

text \<open>
  An accepted connection is modelled by what \<^verbatim>\<open>recvall(cl, 100000000).decode("utf-8")\<close>
  does on it: it returns a text, or \<^verbatim>\<open>decode\<close> raises \<^verbatim>\<open>UnicodeDecodeError\<close> on bytes
  that are not UTF-8, or a \<^verbatim>\<open>recv\<close> inside \<^verbatim>\<open>recvall\<close> raises \<^verbatim>\<open>OSError\<close>. Line 120 is
  outside the \<^verbatim>\<open>try\<close> of lines 123-130, so both exceptions leave \<^verbatim>\<open>parse_socket\<close>.
  The loop state is the pair of \<^verbatim>\<open>candsfile\<close> and \<^verbatim>\<open>gulps\<close>.
\<close>

datatype received = Text string | UndecodableBytes | RecvFailed

datatype error =
  OSError | KeyError | PipelineError | ValueError | IndexError | UnicodeDecodeError

record read_state =
  candsfile :: string
  gulps :: "int list"

text \<open>Lines 122-137, for a connection whose text was received and decoded.\<close>

definition read_client :: "string \<Rightarrow> read_state \<Rightarrow> read_state" where
  "read_client cf rs =
     (case split_char NL cf of
        [] \<Rightarrow> rs
      | gulp # lines \<Rightarrow>
          (case py_int gulp of
             None \<Rightarrow> rs
           | Some g \<Rightarrow>
               (let rs' = rs\<lparr>gulps := gulps rs @ [g]\<rparr>
                in if length lines > 1
                   then (if length (lines ! 0) > 0
                         then rs'\<lparr>candsfile := candsfile rs' @ join [NL] lines\<rparr>
                         else rs')
                   else rs')))"

text \<open>Lines 119-137: the loop over the accepted connections.\<close>

fun read_clients :: "received list \<Rightarrow> read_state \<Rightarrow> error + read_state" where
  "read_clients [] rs = Inr rs"
| "read_clients (Text cf # cls) rs = read_clients cls (read_client cf rs)"
| "read_clients (UndecodableBytes # cls) rs = Inl UnicodeDecodeError"
| "read_clients (RecvFailed # cls) rs = Inl OSError"

definition read_init :: read_state where
  "read_init = \<lparr>candsfile = [], gulps = []\<rparr>"

subsection \<open>Sockets, the store and the trace\<close>

text \<open>
  A listening socket is the port it was created for and a number that tells one socket
  object from the next one created on the same port.
\<close>

record sock =
  sid :: nat
  port :: nat

datatype event =
    Bound sock
  | BindFailed nat
  | Closed sock
  | Accepted sock
  | PutService
  | PutGulp
  | GulpStatus nat
  | Forwarded string int

text \<open>
  What \<^verbatim>\<open>cluster_heimdall.parse_candsfile\<close> followed by \<^verbatim>\<open>cluster_and_plot\<close> does
  with a merged body, as far as the loop can see it: the pair it returns, or the
  exception that leaves the \<^verbatim>\<open>try\<close> block.
\<close>

datatype pipe_result =
    Returned "string option" "int option"
  | KeyboardInterrupt
  | OverflowError
  | OtherException

record world =
  ss :: "sock list"
  next_sid :: nat
  trace :: "event list"
  lastname :: "string option"
  prev_trig_time :: int
  globct :: nat

datatype outcome = Continue world | Break world | Raised error world

definition emit :: "event list \<Rightarrow> world \<Rightarrow> world" where
  "emit es w = w\<lparr>trace := trace w @ es\<rparr>"

text \<open>
  The environment of one cycle: whether the bind of the \<open>i\<close>-th port succeeds (in the
  build at the top of the loop and in the rebuild after a divergent gulp), at which
  endpoint a \<^verbatim>\<open>KeyboardInterrupt\<close> arrives during \<^verbatim>\<open>accept\<close> (if any), the text
  received on the \<open>i\<close>-th accepted connection (or the failure to receive or decode it),
  and the behaviour of the pipeline.
\<close>

record env =
  build_ok :: "nat \<Rightarrow> bool"
  rebuild_ok :: "nat \<Rightarrow> bool"
  accept_interrupt :: "nat option"
  payload :: "nat \<Rightarrow> received"
  pipeline :: "string \<Rightarrow> int \<Rightarrow> pipe_result"

subsection \<open>Building the listening endpoints\<close>

text \<open>
  Lines 91-96, the build at the top of the loop: \<^verbatim>\<open>s.bind\<close> is not guarded, so an
  \<^verbatim>\<open>OSError\<close> leaves \<^verbatim>\<open>parse_socket\<close>, with the sockets bound so far in \<^verbatim>\<open>ss\<close>. The
  first argument counts the ports already visited.
\<close>

fun bind_ports ::
  "(nat \<Rightarrow> bool) \<Rightarrow> nat \<Rightarrow> nat list \<Rightarrow> world \<Rightarrow> (error \<times> world) + world" where
  "bind_ports ok i [] w = Inr w"
| "bind_ports ok i (p # ps) w =
     (let s = \<lparr>sid = next_sid w, port = p\<rparr>;
          w1 = w\<lparr>next_sid := Suc (next_sid w)\<rparr>
      in if ok i
         then bind_ports ok (Suc i) ps (emit [Bound s] (w1\<lparr>ss := ss w1 @ [s]\<rparr>))
         else Inl (OSError, w1))"

text \<open>
  Lines 156-164, the rebuild after a divergent gulp: here \<^verbatim>\<open>s.bind\<close> is inside
  \<^verbatim>\<open>try ... except OSError: continue\<close>.
\<close>

fun rebind_ports :: "(nat \<Rightarrow> bool) \<Rightarrow> nat \<Rightarrow> nat list \<Rightarrow> world \<Rightarrow> world" where
  "rebind_ports ok i [] w = w"
| "rebind_ports ok i (p # ps) w =
     (let s = \<lparr>sid = next_sid w, port = p\<rparr>;
          w1 = w\<lparr>next_sid := Suc (next_sid w)\<rparr>
      in if ok i
         then rebind_ports ok (Suc i) ps (emit [Bound s] (w1\<lparr>ss := ss w1 @ [s]\<rparr>))
         else rebind_ports ok (Suc i) ps (emit [BindFailed p] w1))"

text \<open>Lines 153-165: close every endpoint, empty the list, rebuild, publish status 2.\<close>

definition resync :: "env \<Rightarrow> nat list \<Rightarrow> world \<Rightarrow> world" where
  "resync e ports w =
     (let w1 = emit (map Closed (ss w)) w;
          w2 = w1\<lparr>ss := []\<rparr>;
          w3 = rebind_ports (rebuild_ok e) 0 ports w2
      in emit [GulpStatus 2] w3)"

subsection \<open>Validating and forwarding (lines 117-212)\<close>

text \<open>Lines 140-212, on the state the read loop leaves.\<close>

definition decide :: "env \<Rightarrow> nat list \<Rightarrow> nat \<Rightarrow> read_state \<Rightarrow> world \<Rightarrow> outcome" where
  "decide e ports ncls rs w =
     (if length (gulps rs) \<noteq> ncls then Continue (emit [GulpStatus 1] w)
      else if length (remdups (gulps rs)) > 1 then Continue (resync e ports w)
      else (case gulps rs of
              [] \<Rightarrow> Raised KeyError w
            | gulp # _ \<Rightarrow>
                (let w1 = emit [PutGulp] w
                 in if candsfile rs = [NL] \<or> candsfile rs = []
                    then Continue (emit [GulpStatus 0] w1)
                    else (let w2 = emit [Forwarded (candsfile rs) gulp] w1
                          in case pipeline e (candsfile rs) gulp of
                               Returned nm trigtime \<Rightarrow>
                                 Continue (emit [GulpStatus 0]
                                   (w2\<lparr>lastname := nm,
                                       prev_trig_time :=
                                         (case trigtime of None \<Rightarrow> prev_trig_time w2
                                                         | Some t \<Rightarrow> t),
                                       globct := Suc (globct w2)\<rparr>))
                             | KeyboardInterrupt \<Rightarrow> Break w2
                             | OverflowError \<Rightarrow> Continue (emit [GulpStatus 3] w2)
                             | OtherException \<Rightarrow> Raised PipelineError w2))))"

text \<open>
  Lines 117-212: the read loop, whose exception ends \<^verbatim>\<open>parse_socket\<close> before any status
  is published, and then the decision.
\<close>

definition validate :: "env \<Rightarrow> nat list \<Rightarrow> received list \<Rightarrow> world \<Rightarrow> outcome" where
  "validate e ports cls w =
     (case read_clients cls read_init of
        Inl err \<Rightarrow> Raised err w
      | Inr rs \<Rightarrow> decide e ports (length cls) rs w)"

text \<open>Lines 91-96: the endpoints are built when the list is not as long as \<^verbatim>\<open>ports\<close>.\<close>

definition build_phase :: "env \<Rightarrow> nat list \<Rightarrow> world \<Rightarrow> (error \<times> world) + world" where
  "build_phase e ports w =
     (if length (ss w) \<noteq> length ports then bind_ports (build_ok e) 0 ports w else Inr w)"

text \<open>One pass of the \<^verbatim>\<open>while True\<close> body.\<close>

definition cycle :: "env \<Rightarrow> nat list \<Rightarrow> world \<Rightarrow> outcome" where
  "cycle e ports w =
     (case build_phase e ports w of
        Inl (err, w') \<Rightarrow> Raised err w'
      | Inr w1 \<Rightarrow>
          (let w2 = emit [PutService] w1
           in case (case accept_interrupt e of
                      None \<Rightarrow> None
                    | Some k \<Rightarrow> if k < length (ss w2) then Some k else None) of
                Some k \<Rightarrow> Break (emit (map Accepted (take k (ss w2))) w2)
              | None \<Rightarrow>
                  validate e ports (map (payload e) [0..<length (ss w2)])
                    (emit (map Accepted (ss w2)) w2)))"

text \<open>The loop, run on the environments of its successive cycles.\<close>

fun run :: "env list \<Rightarrow> nat list \<Rightarrow> world \<Rightarrow> outcome" where
  "run [] ports w = Continue w"
| "run (e # es) ports w =
     (case cycle e ports w of
        Continue w' \<Rightarrow> run es ports w'
      | Break w' \<Rightarrow> Break w'
      | Raised err w' \<Rightarrow> Raised err w')"

text \<open>The state at loop entry (lines 61-74).\<close>

definition world_init :: "string option \<Rightarrow> int \<Rightarrow> world" where
  "world_init nm now =
     \<lparr>ss = [], next_sid = 0, trace = [], lastname = nm, prev_trig_time = now, globct = 0\<rparr>"

text \<open>What a trace says happened.\<close>

fun is_forward :: "event \<Rightarrow> bool" where
  "is_forward (Forwarded b g) = True"
| "is_forward ev = False"

fun is_endpoint_event :: "event \<Rightarrow> bool" where
  "is_endpoint_event (Bound s) = True"
| "is_endpoint_event (BindFailed p) = True"
| "is_endpoint_event (Closed s) = True"
| "is_endpoint_event ev = False"

fun status_of :: "event \<Rightarrow> nat list" where
  "status_of (GulpStatus n) = [n]"
| "status_of ev = []"

definition forwarded :: "event list \<Rightarrow> bool" where
  "forwarded es = list_ex is_forward es"

definition touches_endpoints :: "event list \<Rightarrow> bool" where
  "touches_endpoints es = list_ex is_endpoint_event es"

definition statuses :: "event list \<Rightarrow> nat list" where
  "statuses es = concat (map status_of es)"

text \<open>The state an outcome carries, and the events a step added to the trace.\<close>

fun world_of :: "outcome \<Rightarrow> world" where
  "world_of (Continue w) = w"
| "world_of (Break w) = w"
| "world_of (Raised err w) = w"

definition new_events :: "world \<Rightarrow> outcome \<Rightarrow> event list" where
  "new_events w out = drop (length (trace w)) (trace (world_of out))"

subsection \<open>The beam-activity window (lines 37-39)\<close>

text \<open>
  \<^verbatim>\<open>deque(maxlen=10)\<close>: \<^verbatim>\<open>append\<close> adds on the right and, when the deque has grown
  past \<^verbatim>\<open>maxlen\<close>, drops the leftmost entry.
\<close>

definition deque_append :: "nat \<Rightarrow> 'a list \<Rightarrow> 'a \<Rightarrow> 'a list" where
  "deque_append maxlen q x = (let q' = q @ [x] in if length q' > maxlen then tl q' else q')"

definition nbeams_queue_init :: "int list" where
  "nbeams_queue_init = []"

definition nbeams_queue_append :: "int list \<Rightarrow> int \<Rightarrow> int list" where
  "nbeams_queue_append q x = deque_append 10 q x"

subsection \<open>The decision part of \<^verbatim>\<open>cluster_and_plot\<close> (lines 282-346)\<close>

text \<open>
  A row of the candidate table, with the columns the function reads itself. The
  signal-to-noise ratio is a float in the source and a rational here; a table with a
  NaN is outside the model.
\<close>

record row =
  snr :: rat
  ibox :: int
  cl :: int

text \<open>\<^verbatim>\<open>tab["snr"].max()\<close>: a \<^verbatim>\<open>ValueError\<close> on the empty column.\<close>

definition np_max :: "rat list \<Rightarrow> error + rat" where
  "np_max xs = (case xs of [] \<Rightarrow> Inl ValueError | x # ys \<Rightarrow> Inr (fold max ys x))"

text \<open>\<^verbatim>\<open>np.where(mask)[0][0]\<close>: the first index where the mask holds.\<close>

fun first_index :: "('a \<Rightarrow> bool) \<Rightarrow> 'a list \<Rightarrow> nat option" where
  "first_index P [] = None"
| "first_index P (x # xs) = (if P x then Some 0 else map_option Suc (first_index P xs))"

text \<open>
  An integer count divided by \<^verbatim>\<open>float(len(...))\<close>: numpy gives NaN (or an infinity)
  for a zero divisor, here \<open>None\<close>.
\<close>

definition np_div :: "nat \<Rightarrow> nat \<Rightarrow> rat option" where
  "np_div a b = (if b = 0 then None else Some (of_nat a / of_nat b))"

text \<open>Lines 296-298: the cluster of the first row of maximal signal-to-noise ratio.\<close>

definition cl_max_of :: "row list \<Rightarrow> error + int" where
  "cl_max_of tab =
     (case np_max (map snr tab) of
        Inl err \<Rightarrow> Inl err
      | Inr maxsnr \<Rightarrow>
          (case first_index (\<lambda>x. x = maxsnr) (map snr tab) of
             None \<Rightarrow> Inl IndexError
           | Some imaxsnr \<Rightarrow> Inr (cl (tab ! imaxsnr))))"

text \<open>\<^verbatim>\<open>tab["ibox"][tab["cl"] == cl_max]\<close>.\<close>

definition cl_ibox :: "row list \<Rightarrow> int \<Rightarrow> int list" where
  "cl_ibox tab cl_max = map ibox (filter (\<lambda>r. cl r = cl_max) tab)"

text \<open>Lines 299-301: the division as it is evaluated.\<close>

definition frac_wide_div :: "row list \<Rightarrow> int \<Rightarrow> rat option" where
  "frac_wide_div tab cl_max =
     np_div (length (filter (\<lambda>b. b \<ge> 32) (cl_ibox tab cl_max))) (length (cl_ibox tab cl_max))"

text \<open>Lines 296-304: the value of \<^verbatim>\<open>frac_wide\<close> after the singleton test.\<close>

definition frac_wide :: "row list \<Rightarrow> error + rat option" where
  "frac_wide tab =
     (case cl_max_of tab of
        Inl err \<Rightarrow> Inl err
      | Inr cl_max \<Rightarrow>
          (let fw = frac_wide_div tab cl_max
           in Inr (if length (cl_ibox tab cl_max) = 1 then Some 0 else fw)))"

text \<open>
  Lines 307-313. The source compares a float quotient with the literal \<^verbatim>\<open>0.85\<close>; the
  model compares the exact quotient with 85/100, which gives the same answer for every
  table of fewer than \<open>10^14\<close> rows (the two quotients nearest to 0.85 are further from
  it than a rounding error).
\<close>

definition ibox64_filter :: "row list \<Rightarrow> bool" where
  "ibox64_filter tab2 =
     (if length tab2 > 0
      then (let ibox64_cnt =
                  (of_nat (length (filter (\<lambda>r. ibox r = 64) tab2)) :: rat) / of_nat (length tab2)
            in ibox64_cnt > 85 / 100 \<and> length tab2 > 15)
      else False)"

text \<open>
  The functions of \<^verbatim>\<open>cluster_heimdall\<close> that \<^verbatim>\<open>cluster_and_plot\<close> calls are not in the
  file; they are parameters. \<^verbatim>\<open>filter_clustered\<close> stands for the call with the
  thresholds read from the configuration.
\<close>

record trigger_call =
  tc_tab3 :: "row list"
  tc_trigger :: bool
  tc_lastname :: "string option"
  tc_gulp :: int
  tc_nbeams :: int
  tc_frac_wide :: "rat option"
  tc_prev_trig_time :: int
  tc_min_timedelt :: rat

record externals =
  cluster_data :: "row list \<Rightarrow> row list"
  get_peak :: "row list \<Rightarrow> row list"
  get_nbeams :: "row list \<Rightarrow> int"
  filter_clustered :: "row list \<Rightarrow> row list"
  dump_cluster_results_json :: "trigger_call \<Rightarrow> string option \<times> int option"

record cap_args =
  a_tab :: "row list"
  a_gulp :: int
  a_outroot :: "string option"
  a_trigger :: bool
  a_lastname :: "string option"
  a_prev_trig_time :: int

record cap_result =
  r_lastname :: "string option"
  r_trigtime :: "int option"
  r_ibox64_filter :: bool
  r_call :: "trigger_call option"

text \<open>
  The function returns the new window together with its result: the window is
  appended to (line 291) before the statements that can raise.
\<close>

definition cluster_and_plot ::
  "externals \<Rightarrow> cap_args \<Rightarrow> int list \<Rightarrow> int list \<times> (error + cap_result)" where
  "cluster_and_plot ext a nbeams_queue =
     (let tab = cluster_data ext (a_tab a);
          tab2 = get_peak ext tab;
          nbeams_gulp = get_nbeams ext tab2;
          q = nbeams_queue_append nbeams_queue nbeams_gulp
      in (q,
          case frac_wide tab of
            Inl err \<Rightarrow> Inl err
          | Inr fw \<Rightarrow>
              (let flt = ibox64_filter tab2;
                   tab3 = filter_clustered ext tab2
               in if a_outroot a \<noteq> None \<and> length tab3 > 0 \<and> \<not> flt
                  then (let c = \<lparr>tc_tab3 = tab3, tc_trigger = a_trigger a,
                                  tc_lastname = a_lastname a, tc_gulp = a_gulp a,
                                  tc_nbeams = sum_list q, tc_frac_wide = fw,
                                  tc_prev_trig_time = a_prev_trig_time a,
                                  tc_min_timedelt = 60\<rparr>;
                            res = dump_cluster_results_json ext c
                        in Inr \<lparr>r_lastname = fst res, r_trigtime = snd res,
                                r_ibox64_filter = flt, r_call = Some c\<rparr>)
                  else Inr \<lparr>r_lastname = a_lastname a, r_trigtime = None,
                            r_ibox64_filter = flt, r_call = None\<rparr>)))"

text \<open>The window after successive calls of \<^verbatim>\<open>cluster_and_plot\<close>.\<close>

fun queue_after :: "externals \<Rightarrow> cap_args list \<Rightarrow> int list \<Rightarrow> int list" where
  "queue_after ext [] q = q"
| "queue_after ext (a # as) q = queue_after ext as (fst (cluster_and_plot ext a q))"

definition pushed :: "externals \<Rightarrow> cap_args \<Rightarrow> int" where
  "pushed ext a = get_nbeams ext (get_peak ext (cluster_data ext (a_tab a)))"

subsection \<open>The wire format, in the words of the specification\<close>

text \<open>
  A payload is a first line (the batch id) and, after the first newline, the remaining
  payload, itself a sequence of newline-separated lines.
\<close>

definition first_line :: "string \<Rightarrow> string" where
  "first_line cf = takeWhile (\<lambda>c. c \<noteq> NL) cf"

definition remainder :: "string \<Rightarrow> string" where
  "remainder cf = drop (Suc (length (first_line cf))) cf"

definition further_lines :: "string \<Rightarrow> string list" where
  "further_lines cf = (if NL \<in> set cf then split_char NL (remainder cf) else [])"

definition id_part :: "string \<Rightarrow> int list" where
  "id_part cf = (case py_int (first_line cf) of None \<Rightarrow> [] | Some g \<Rightarrow> [g])"

definition body_part :: "string \<Rightarrow> string" where
  "body_part cf =
     (if py_int (first_line cf) \<noteq> None \<and> 2 \<le> length (further_lines cf)
         \<and> further_lines cf ! 0 \<noteq> []
      then remainder cf else [])"

text \<open>
  The same for an accepted connection: one that could not be received or decoded gives
  neither an id nor text.
\<close>

fun decoded :: "received \<Rightarrow> bool" where
  "decoded (Text cf) = True"
| "decoded c = False"

fun conn_ids :: "received \<Rightarrow> int list" where
  "conn_ids (Text cf) = id_part cf"
| "conn_ids c = []"

fun conn_body :: "received \<Rightarrow> string" where
  "conn_body (Text cf) = body_part cf"
| "conn_body c = []"

definition parsed_ids :: "received list \<Rightarrow> int list" where
  "parsed_ids cls = concat (map conn_ids cls)"

definition merged_body :: "received list \<Rightarrow> string" where
  "merged_body cls = concat (map conn_body cls)"

text \<open>All ids identical; a text that is empty or made of whitespace only.\<close>

definition identical_ids :: "int list \<Rightarrow> bool" where
  "identical_ids ids = (case ids of [] \<Rightarrow> True | g # gs \<Rightarrow> list_all (\<lambda>h. h = g) gs)"

definition is_blank :: "string \<Rightarrow> bool" where
  "is_blank s = list_all is_space s"

fun parseable :: "received \<Rightarrow> bool" where
  "parseable (Text cf) = (py_int (first_line cf) \<noteq> None)"
| "parseable c = False"

text \<open>
  The rebuild, as a list of events: for each configured port in turn, a new socket
  and either its successful bind or the failure that is printed and skipped.
\<close>

fun rebind_events :: "(nat \<Rightarrow> bool) \<Rightarrow> nat \<Rightarrow> nat list \<Rightarrow> nat \<Rightarrow> event list" where
  "rebind_events ok i [] n = []"
| "rebind_events ok i (p # ps) n =
     (if ok i then Bound \<lparr>sid = n, port = p\<rparr> else BindFailed p)
       # rebind_events ok (Suc i) ps (Suc n)"

fun bound_socks :: "event list \<Rightarrow> sock list" where
  "bound_socks [] = []"
| "bound_socks (Bound s # es) = s # bound_socks es"
| "bound_socks (ev # es) = bound_socks es"

subsection \<open>Concrete inputs\<close>

definition env0 :: env where
  "env0 = \<lparr>build_ok = (\<lambda>i. True), rebuild_ok = (\<lambda>i. True), accept_interrupt = None,
           payload = (\<lambda>i. Text []), pipeline = (\<lambda>b g. Returned None None)\<rparr>"

definition w0 :: world where
  "w0 = world_init None 0"

text \<open>A state with three listening endpoints, as the first build leaves it.\<close>

definition w3 :: world where
  "w3 = \<lparr>ss = [\<lparr>sid = 0, port = 5000\<rparr>, \<lparr>sid = 1, port = 5001\<rparr>, \<lparr>sid = 2, port = 5002\<rparr>],
          next_sid = 3, trace = [], lastname = None, prev_trig_time = 0, globct = 0\<rparr>"

definition header_only :: string where
  "header_only = ''42'' @ [NL]"

definition blank_rows :: string where
  "blank_rows = ''42'' @ [NL] @ '' '' @ [NL]"

definition rows42 :: string where
  "rows42 = ''42'' @ [NL] @ ''10.5 7 13'' @ [NL]"

definition rows43 :: string where
  "rows43 = ''43'' @ [NL] @ ''10.5 7 13'' @ [NL]"

definition garbage :: string where
  "garbage = ''x''"

text \<open>An environment in which the bind of the second port fails.\<close>

definition env_fail :: env where
  "env_fail = \<lparr>build_ok = (\<lambda>i. i \<noteq> 1), rebuild_ok = (\<lambda>i. i \<noteq> 1),
               accept_interrupt = None, payload = (\<lambda>i. Text []),
               pipeline = (\<lambda>b g. Returned None None)\<rparr>"

text \<open>What a result of \<^verbatim>\<open>cluster_and_plot\<close> says about the trigger step.\<close>

definition count64 :: "row list \<Rightarrow> nat" where
  "count64 tab2 = length (filter (\<lambda>r. ibox r = 64) tab2)"

definition trigger_invoked :: "error + cap_result \<Rightarrow> bool" where
  "trigger_invoked res = (case res of Inl err \<Rightarrow> False | Inr r \<Rightarrow> r_call r \<noteq> None)"

definition flagged :: "error + cap_result \<Rightarrow> bool" where
  "flagged res = (case res of Inl err \<Rightarrow> False | Inr r \<Rightarrow> r_ibox64_filter r)"

text \<open>
  Stand-ins for the external functions: the table is returned as it is, the beam count
  is the number of rows, and the trigger step names a candidate.
\<close>

definition ext0 :: externals where
  "ext0 = \<lparr>cluster_data = (\<lambda>t. t), get_peak = (\<lambda>t. t), get_nbeams = (\<lambda>t. int (length t)),
           filter_clustered = (\<lambda>t. t),
           dump_cluster_results_json = (\<lambda>c. (Some ''cand'', Some 1))\<rparr>"

definition row64 :: row where
  "row64 = \<lparr>snr = 10, ibox = 64, cl = 0\<rparr>"

definition row8 :: row where
  "row8 = \<lparr>snr = 9, ibox = 8, cl = 1\<rparr>"

definition args_of :: "row list \<Rightarrow> cap_args" where
  "args_of tab = \<lparr>a_tab = tab, a_gulp = 42, a_outroot = Some ''/out/'', a_trigger = True,
                  a_lastname = None, a_prev_trig_time = 0\<rparr>"

text \<open>Twenty peak rows of which seventeen, exactly 85%, have boxcar index 64.\<close>

definition tab20 :: "row list" where
  "tab20 = replicate 17 row64 @ replicate 3 row8"

definition tab16 :: "row list" where
  "tab16 = replicate 16 row64"

text \<open>A table whose row of highest signal-to-noise ratio is alone in its cluster.\<close>

definition tab_single :: "row list" where
  "tab_single = [\<lparr>snr = 8, ibox = 40, cl = 0\<rparr>, \<lparr>snr = 12, ibox = 64, cl = 1\<rparr>,
                 \<lparr>snr = 9, ibox = 40, cl = 0\<rparr>]"

text \<open>Eleven calls, the \<open>n\<close>-th on a table of \<open>n\<close> rows.\<close>

definition calls11 :: "cap_args list" where
  "calls11 = map (\<lambda>n. args_of (replicate n row8)) [1, 2, 3, 4, 5, 6, 7, 8, 9, 10, 11]"

section \<open>The read loop\<close>

text \<open>\<^verbatim>\<open>split\<close> and \<^verbatim>\<open>join\<close> against the first line and the remainder of a payload.\<close>

lemma split_char_ne: "split_char sep s \<noteq> []"
  by (induction s) (auto split: list.splits)

lemma split_char_first: "split_char NL cf = first_line cf # further_lines cf"
  apply (induction cf)
   apply (simp add: first_line_def further_lines_def)
  apply (auto simp: first_line_def further_lines_def remainder_def split: list.splits)
  done

lemma join_Cons: "ls \<noteq> [] \<Longrightarrow> join sep (l # ls) = l @ sep @ join sep ls"
  by (cases ls) auto

lemma join_split: "join [sep] (split_char sep s) = s"
proof (induction s)
  case Nil
  show ?case by simp
next
  case (Cons c s)
  obtain l ls where sp: "split_char sep s = l # ls"
    using split_char_ne [of sep s] by (cases "split_char sep s") auto
  show ?case
  proof (cases "c = sep")
    case True
    then show ?thesis using Cons by (simp add: join_Cons split_char_ne)
  next
    case False
    then show ?thesis using Cons sp by (cases ls) auto
  qed
qed

lemma join_further: "further_lines cf \<noteq> [] \<Longrightarrow> join [NL] (further_lines cf) = remainder cf"
  by (auto simp: further_lines_def join_split split: if_splits)

lemma read_client_eq:
  "read_client cf rs =
     rs\<lparr>gulps := gulps rs @ id_part cf, candsfile := candsfile rs @ body_part cf\<rparr>"
proof (cases "py_int (first_line cf)")
  case None
  then show ?thesis
    by (simp add: read_client_def split_char_first id_part_def body_part_def)
next
  case (Some g)
  have "2 \<le> length (further_lines cf) \<Longrightarrow> join [NL] (further_lines cf) = remainder cf"
    by (rule join_further) auto
  with Some show ?thesis
    by (auto simp: read_client_def split_char_first id_part_def body_part_def Let_def)
qed

text \<open>The read loop raises exactly when a connection could not be received or decoded.\<close>

lemma read_clients_eq:
  "list_all decoded cls \<Longrightarrow>
     read_clients cls rs =
       Inr (rs\<lparr>gulps := gulps rs @ parsed_ids cls, candsfile := candsfile rs @ merged_body cls\<rparr>)"
proof (induction cls arbitrary: rs)
  case Nil
  show ?case by (simp add: parsed_ids_def merged_body_def)
next
  case (Cons c cls)
  then show ?case
    by (cases c) (simp_all add: read_client_eq parsed_ids_def merged_body_def)
qed

lemma read_clients_init:
  "list_all decoded cls \<Longrightarrow>
     read_clients cls read_init = Inr \<lparr>candsfile = merged_body cls, gulps = parsed_ids cls\<rparr>"
  by (simp add: read_clients_eq read_init_def)

lemma read_clients_raises:
  "\<not> list_all decoded cls \<Longrightarrow> \<exists>err. read_clients cls rs = Inl err"
proof (induction cls arbitrary: rs)
  case Nil
  then show ?case by simp
next
  case (Cons c cls)
  then show ?case by (cases c) simp_all
qed

lemma length_id_part: "length (id_part cf) \<le> 1"
  by (simp add: id_part_def split: option.splits)

lemma length_conn_ids: "length (conn_ids c) \<le> 1"
  using length_id_part by (cases c) auto

lemma length_parsed_ids: "length (parsed_ids cls) \<le> length cls"
  unfolding parsed_ids_def
proof (induction cls)
  case Nil show ?case by simp
next
  case (Cons c cls)
  then show ?case using length_conn_ids [of c] by simp
qed

lemma parseable_conn_ids: "parseable c \<longleftrightarrow> length (conn_ids c) = 1"
  by (cases c) (auto simp: id_part_def split: option.splits)

lemma all_parseable_iff:
  "list_all parseable cls \<longleftrightarrow> length (parsed_ids cls) = length cls"
proof (induction cls)
  case Nil show ?case by (simp add: parsed_ids_def)
next
  case (Cons c cls)
  have le: "length (parsed_ids cls) \<le> length cls" by (rule length_parsed_ids)
  have c: "length (conn_ids c) \<le> 1" by (rule length_conn_ids)
  show ?case
  proof (cases "parseable c")
    case True
    then have "length (conn_ids c) = 1" by (simp add: parseable_conn_ids)
    then show ?thesis using True Cons by (simp add: parsed_ids_def)
  next
    case False
    then have "length (conn_ids c) \<noteq> 1" by (simp add: parseable_conn_ids)
    with c have "conn_ids c = []" by (cases "conn_ids c") auto
    then show ?thesis using False le by (simp add: parsed_ids_def)
  qed
qed

lemma parseable_decoded: "parseable c \<Longrightarrow> decoded c"
  by (cases c) simp_all

lemma all_parseable_decoded: "list_all parseable cls \<Longrightarrow> list_all decoded cls"
  by (induction cls) (simp_all add: parseable_decoded)

lemma body_part_no_id: "id_part cf = [] \<Longrightarrow> body_part cf = []"
  by (simp add: id_part_def body_part_def split: option.splits)

lemma conn_body_no_id: "conn_ids c = [] \<Longrightarrow> conn_body c = []"
  by (cases c) (simp_all add: body_part_no_id)

lemma merged_body_no_ids: "parsed_ids cls = [] \<Longrightarrow> merged_body cls = []"
  by (induction cls) (auto simp: parsed_ids_def merged_body_def conn_body_no_id)

text \<open>\<^verbatim>\<open>len(set(gulps)) > 1\<close> says that two ids differ.\<close>

lemma identical_ids_iff: "identical_ids ids \<longleftrightarrow> length (remdups ids) \<le> 1"
proof -
  have "length (remdups ids) \<le> 1 \<longleftrightarrow> card (set ids) \<le> Suc 0"
    by (simp add: length_remdups_card_conv)
  also have "\<dots> \<longleftrightarrow> (\<forall>a\<in>set ids. \<forall>b\<in>set ids. a = b)"
    by (simp add: card_le_Suc0_iff_eq)
  also have "\<dots> \<longleftrightarrow> identical_ids ids"
  proof (cases ids)
    case Nil
    then show ?thesis by (simp add: identical_ids_def)
  next
    case (Cons g gs)
    then show ?thesis by (simp add: identical_ids_def list_all_iff) metis
  qed
  finally show ?thesis by simp
qed

section \<open>The validation step\<close>

lemma rebind_ports_eq:
  "rebind_ports ok i ps w =
     w\<lparr>ss := ss w @ bound_socks (rebind_events ok i ps (next_sid w)),
       next_sid := next_sid w + length ps,
       trace := trace w @ rebind_events ok i ps (next_sid w)\<rparr>"
  by (induction ps arbitrary: i w) (simp_all add: emit_def Let_def)

lemma resync_eq:
  "resync e ports w =
     w\<lparr>ss := bound_socks (rebind_events (rebuild_ok e) 0 ports (next_sid w)),
       next_sid := next_sid w + length ports,
       trace := trace w @ map Closed (ss w)
                  @ rebind_events (rebuild_ok e) 0 ports (next_sid w) @ [GulpStatus 2]\<rparr>"
  by (simp add: resync_def rebind_ports_eq emit_def Let_def)

lemma new_events_emit [simp]: "new_events w (Continue (emit es w)) = es"
  by (simp add: new_events_def emit_def)

lemma new_events_resync:
  "new_events w (Continue (resync e ports w)) =
     map Closed (ss w) @ rebind_events (rebuild_ok e) 0 ports (next_sid w) @ [GulpStatus 2]"
  by (simp add: new_events_def resync_eq)

lemma validate_decoded:
  "list_all decoded cls \<Longrightarrow>
     validate e ports cls w =
       decide e ports (length cls) \<lparr>candsfile = merged_body cls, gulps = parsed_ids cls\<rparr> w"
  by (simp add: validate_def read_clients_init)

lemma validate_raises:
  "\<not> list_all decoded cls \<Longrightarrow> \<exists>err. validate e ports cls w = Raised err w"
  using read_clients_raises [of cls read_init] by (auto simp: validate_def)

lemma validate_incomplete:
  "list_all decoded cls \<Longrightarrow> length (parsed_ids cls) \<noteq> length cls \<Longrightarrow>
     validate e ports cls w = Continue (emit [GulpStatus 1] w)"
  by (simp add: validate_decoded decide_def)

lemma validate_divergent:
  "length (parsed_ids cls) = length cls \<Longrightarrow> \<not> identical_ids (parsed_ids cls) \<Longrightarrow>
     validate e ports cls w = Continue (resync e ports w)"
proof -
  assume len: "length (parsed_ids cls) = length cls" and d: "\<not> identical_ids (parsed_ids cls)"
  from len have "list_all decoded cls"
    by (simp add: all_parseable_iff [symmetric] all_parseable_decoded)
  then show ?thesis using len d by (simp add: validate_decoded decide_def identical_ids_iff)
qed

lemma validate_no_client:
  "validate e ports [] w = Raised KeyError w"
  by (simp add: validate_def decide_def read_init_def)

lemma validate_empty:
  "cls \<noteq> [] \<Longrightarrow> length (parsed_ids cls) = length cls \<Longrightarrow> identical_ids (parsed_ids cls) \<Longrightarrow>
   merged_body cls = [] \<or> merged_body cls = [NL] \<Longrightarrow>
     validate e ports cls w = Continue (emit [PutGulp, GulpStatus 0] w)"
proof -
  assume ne: "cls \<noteq> []" and len: "length (parsed_ids cls) = length cls"
    and same: "identical_ids (parsed_ids cls)"
    and body: "merged_body cls = [] \<or> merged_body cls = [NL]"
  from len have dec: "list_all decoded cls"
    by (simp add: all_parseable_iff [symmetric] all_parseable_decoded)
  show ?thesis using ne len same body
    by (cases "parsed_ids cls")
      (auto simp: validate_decoded [OF dec] decide_def identical_ids_iff emit_def)
qed

text \<open>The events of a cycle that forwards its batch.\<close>

lemma validate_forward:
  assumes "length (parsed_ids cls) = length cls" "identical_ids (parsed_ids cls)"
    "merged_body cls \<noteq> []" "merged_body cls \<noteq> [NL]"
  shows "\<exists>g gs tl. parsed_ids cls = g # gs \<and>
     new_events w (validate e ports cls w) = PutGulp # Forwarded (merged_body cls) g # tl \<and>
     tl = (case pipeline e (merged_body cls) g of
             Returned nm t \<Rightarrow> [GulpStatus 0] | OverflowError \<Rightarrow> [GulpStatus 3] | _ \<Rightarrow> [])"
proof -
  from assms(1) have dec: "list_all decoded cls"
    by (simp add: all_parseable_iff [symmetric] all_parseable_decoded)
  from assms(3) have "parsed_ids cls \<noteq> []" using merged_body_no_ids by blast
  then obtain g gs where ids: "parsed_ids cls = g # gs" by (cases "parsed_ids cls") auto
  have nd: "\<not> Suc 0 < length (remdups (g # gs))"
    using assms(2) ids by (simp add: identical_ids_iff del: remdups.simps)
  show ?thesis
    using assms(1,3,4) ids nd
    by (cases "pipeline e (merged_body cls) g")
      (simp_all add: validate_decoded [OF dec] decide_def emit_def new_events_def Let_def
        del: remdups.simps)
qed

text \<open>
  A cycle whose build step succeeds and whose accept is not interrupted is the validation
  step on the texts of its accepted connections.
\<close>

lemma cycle_reaches_validate:
  "build_phase e ports w = Inr w1 \<Longrightarrow> accept_interrupt e = None \<Longrightarrow>
     cycle e ports w =
       validate e ports (map (payload e) [0..<length (ss w1)])
         (emit (PutService # map Accepted (ss w1)) w1)"
  by (simp add: cycle_def emit_def Let_def)

lemma build_phase_complete:
  "length (ss w) = length ports \<Longrightarrow> build_phase e ports w = Inr w"
  by (simp add: build_phase_def)

lemma new_events_same [simp]: "new_events w (Raised err w) = []"
  by (simp add: new_events_def)

lemma no_forward_rebind: "\<not> list_ex is_forward (rebind_events ok i ps n)"
  by (induction ps arbitrary: i n) simp_all

lemma no_forward_closed: "\<not> list_ex is_forward (map Closed xs)"
  by (induction xs) simp_all

lemma statuses_rebind: "concat (map status_of (rebind_events ok i ps n)) = []"
  by (induction ps arbitrary: i n) simp_all

lemma statuses_closed: "concat (map status_of (map Closed xs)) = []"
  by (induction xs) simp_all

lemma no_gulp_rebind: "PutGulp \<notin> set (rebind_events ok i ps n)"
  by (induction ps arbitrary: i n) simp_all

lemma no_gulp_closed: "PutGulp \<notin> Closed ` set xs"
  by auto

lemma bind_ports_prefix:
  "bind_ports ok i ps w = Inr w' \<Longrightarrow> take (length (ss w)) (ss w') = ss w"
proof (induction ps arbitrary: i w)
  case Nil
  then show ?case by simp
next
  case (Cons p ps)
  let ?w1 = "emit [Bound \<lparr>sid = next_sid w, port = p\<rparr>]
    (w\<lparr>next_sid := Suc (next_sid w), ss := ss w @ [\<lparr>sid = next_sid w, port = p\<rparr>]\<rparr>)"
  from Cons.prems have ok: "ok i" and r: "bind_ports ok (Suc i) ps ?w1 = Inr w'"
    by (auto simp: Let_def split: if_splits)
  have "take (length (ss ?w1)) (ss w') = ss ?w1" by (rule Cons.IH [OF r])
  then have "take (length (ss w)) (take (length (ss ?w1)) (ss w')) = take (length (ss w)) (ss ?w1)"
    by simp
  then show ?case by (simp add: emit_def min_def)
qed

lemma build_phase_prefix:
  "build_phase e ports w = Inr w' \<Longrightarrow> take (length (ss w)) (ss w') = ss w"
  by (auto simp: build_phase_def bind_ports_prefix split: if_splits)

lemma rebind_all_ok:
  "(\<forall>j<length ps. ok (i + j)) \<Longrightarrow> map port (bound_socks (rebind_events ok i ps n)) = ps"
proof (induction ps arbitrary: i n)
  case Nil
  show ?case by simp
next
  case (Cons p ps)
  from Cons.prems have "ok (i + 0)" by (metis length_greater_0_conv list.distinct(1))
  then have ok: "ok i" by simp
  have "\<forall>j<length ps. ok (Suc i + j)"
  proof (intro allI impI)
    fix j assume "j < length ps"
    then have "Suc j < length (p # ps)" by simp
    with Cons.prems have "ok (i + Suc j)" by blast
    then show "ok (Suc i + j)" by simp
  qed
  then show ?case using ok Cons.IH [of "Suc i" "Suc n"] by simp
qed

section \<open>The decision engine\<close>

text \<open>The window after any number of calls holds the last ten counts pushed.\<close>

lemma deque_append_drop:
  "length q \<le> n \<Longrightarrow> deque_append n q x = drop (Suc (length q) - n) (q @ [x])"
  by (cases q) (auto simp: deque_append_def Let_def Suc_diff_le)

lemma fst_cluster_and_plot:
  "fst (cluster_and_plot ext a q) = nbeams_queue_append q (pushed ext a)"
  by (simp add: cluster_and_plot_def pushed_def Let_def)

lemma queue_after_eq:
  "length q \<le> 10 \<Longrightarrow>
     queue_after ext as q = drop (length q + length as - 10) (q @ map (pushed ext) as)"
proof (induction as arbitrary: q)
  case Nil
  then show ?case by simp
next
  case (Cons a as)
  let ?p = "pushed ext a"
  let ?q = "nbeams_queue_append q ?p"
  show ?case
  proof (cases "length q < 10")
    case True
    then have q': "?q = q @ [?p]"
      by (simp add: nbeams_queue_append_def deque_append_def)
    with True have "length ?q \<le> 10" by simp
    from Cons.IH [OF this] show ?thesis
      by (simp add: fst_cluster_and_plot q')
  next
    case False
    with Cons.prems have l: "length q = 10" by simp
    then obtain x xs where q: "q = x # xs" by (cases q) auto
    have q': "nbeams_queue_append (x # xs) ?p = xs @ [?p]"
      using l by (simp add: nbeams_queue_append_def deque_append_def q)
    have "length (xs @ [?p]) \<le> 10" using l by (simp add: q)
    from Cons.IH [OF this] show ?thesis
      using l by (simp add: fst_cluster_and_plot q' q)
  qed
qed

text \<open>The row of maximal signal-to-noise ratio is a row of the table.\<close>

lemma fold_max_mem: "fold max ys (x::rat) \<in> set (x # ys)"
proof (induction ys arbitrary: x)
  case Nil
  show ?case by simp
next
  case (Cons y ys)
  have m: "max x y = x \<or> max x y = y" by (simp add: max_def)
  have "fold max ys (max x y) \<in> set (max x y # ys)" by (rule Cons.IH)
  then have "fold max ys (max x y) = max x y \<or> fold max ys (max x y) \<in> set ys" by simp
  with m show ?case by auto
qed

lemma np_max_mem: "xs \<noteq> [] \<Longrightarrow> \<exists>m. np_max xs = Inr m \<and> m \<in> set xs"
  using fold_max_mem by (cases xs) (auto simp: np_max_def)

lemma first_index_Some:
  "\<exists>x\<in>set xs. P x \<Longrightarrow> \<exists>i. first_index P xs = Some i \<and> i < length xs \<and> P (xs ! i)"
proof (induction xs)
  case Nil
  then show ?case by simp
next
  case (Cons a xs)
  show ?case
  proof (cases "P a")
    case True
    then show ?thesis by simp
  next
    case False
    with Cons.prems have "\<exists>x\<in>set xs. P x" by simp
    from Cons.IH [OF this] obtain i where
      "first_index P xs = Some i" "i < length xs" "P (xs ! i)" by auto
    with False have "first_index P (a # xs) = Some (Suc i) \<and> Suc i < length (a # xs)
        \<and> P ((a # xs) ! Suc i)" by simp
    then show ?thesis by blast
  qed
qed

lemma cl_max_of_member:
  assumes "tab \<noteq> []"
  shows "\<exists>i. i < length tab \<and> cl_max_of tab = Inr (cl (tab ! i))"
proof -
  from assms obtain m where m: "np_max (map snr tab) = Inr m" "m \<in> set (map snr tab)"
    using np_max_mem [of "map snr tab"] by auto
  then have "\<exists>x\<in>set (map snr tab). x = m" by simp
  from first_index_Some [OF this]
  obtain i where i: "first_index (\<lambda>x. x = m) (map snr tab) = Some i" "i < length tab"
    by auto
  then show ?thesis using m by (auto simp: cl_max_of_def)
qed

lemma cl_ibox_nonempty: "i < length tab \<Longrightarrow> cl_ibox tab (cl (tab ! i)) \<noteq> []"
  by (auto simp: cl_ibox_def filter_empty_conv intro: nth_mem)

text \<open>The width filter in whole numbers, and the result of \<^verbatim>\<open>cluster_and_plot\<close> spelled out.\<close>

lemma ibox64_filter_iff:
  "ibox64_filter tab2 \<longleftrightarrow> 85 * length tab2 < 100 * count64 tab2 \<and> 15 < length tab2"
proof (cases "tab2 = []")
  case True
  then show ?thesis by (simp add: ibox64_filter_def)
next
  case False
  then have pos: "(0::rat) < of_nat (length tab2)" by simp
  have "(85 / 100 < (of_nat (count64 tab2) :: rat) / of_nat (length tab2))
      \<longleftrightarrow> (85 * (of_nat (length tab2) :: rat) < 100 * of_nat (count64 tab2))"
    using pos by (simp add: field_simps)
  also have "\<dots> \<longleftrightarrow> (of_nat (85 * length tab2) :: rat) < of_nat (100 * count64 tab2)"
    by simp
  also have "\<dots> \<longleftrightarrow> 85 * length tab2 < 100 * count64 tab2"
    by (rule of_nat_less_iff)
  finally show ?thesis using False
    by (simp add: ibox64_filter_def count64_def Let_def)
qed

lemma cap_result_cases:
  "snd (cluster_and_plot ext a q) =
     (let tab = cluster_data ext (a_tab a); tab2 = get_peak ext tab
      in case frac_wide tab of
           Inl err \<Rightarrow> Inl err
         | Inr fw \<Rightarrow>
             if a_outroot a \<noteq> None \<and> filter_clustered ext tab2 \<noteq> [] \<and> \<not> ibox64_filter tab2
             then Inr \<lparr>r_lastname = fst (dump_cluster_results_json ext
                          \<lparr>tc_tab3 = filter_clustered ext tab2, tc_trigger = a_trigger a,
                           tc_lastname = a_lastname a, tc_gulp = a_gulp a,
                           tc_nbeams = sum_list (fst (cluster_and_plot ext a q)),
                           tc_frac_wide = fw, tc_prev_trig_time = a_prev_trig_time a,
                           tc_min_timedelt = 60\<rparr>),
                        r_trigtime = snd (dump_cluster_results_json ext
                          \<lparr>tc_tab3 = filter_clustered ext tab2, tc_trigger = a_trigger a,
                           tc_lastname = a_lastname a, tc_gulp = a_gulp a,
                           tc_nbeams = sum_list (fst (cluster_and_plot ext a q)),
                           tc_frac_wide = fw, tc_prev_trig_time = a_prev_trig_time a,
                           tc_min_timedelt = 60\<rparr>),
                        r_ibox64_filter = ibox64_filter tab2,
                        r_call = Some \<lparr>tc_tab3 = filter_clustered ext tab2, tc_trigger = a_trigger a,
                           tc_lastname = a_lastname a, tc_gulp = a_gulp a,
                           tc_nbeams = sum_list (fst (cluster_and_plot ext a q)),
                           tc_frac_wide = fw, tc_prev_trig_time = a_prev_trig_time a,
                           tc_min_timedelt = 60\<rparr>\<rparr>
             else Inr \<lparr>r_lastname = a_lastname a, r_trigtime = None,
                        r_ibox64_filter = ibox64_filter tab2, r_call = None\<rparr>)"
  by (simp add: cluster_and_plot_def Let_def split: sum.splits)

text \<open>On a table with a row, lines 296-304 raise nothing.\<close>

lemma frac_wide_total: "tab \<noteq> [] \<Longrightarrow> \<exists>fw. frac_wide tab = Inr fw"
  using cl_max_of_member [of tab] by (auto simp: frac_wide_def Let_def)

lemma count_tab16: "count64 tab16 = 16 \<and> length tab16 = 16"
  by (simp add: tab16_def row64_def count64_def)

lemma count_tab20: "count64 tab20 = 17 \<and> length tab20 = 20"
  by (simp add: tab20_def row64_def row8_def count64_def)

text \<open>The definitions that a concrete evaluation unfolds.\<close>

lemmas ev = NL_def py_int_def strip_def is_space_def digit_val_def first_line_def
  further_lines_def remainder_def id_part_def body_part_def parsed_ids_def
  merged_body_def identical_ids_def

lemmas run_defs = validate_def decide_def read_client_def read_init_def new_events_def emit_def
  forwarded_def touches_endpoints_def statuses_def Let_def resync_def

text \<open>
  The whitespace of \<^verbatim>\<open>int\<close>: a no-break space after the digits is stripped, a file
  separator before them is not.
\<close>

lemma py_int_whitespace:
  "py_int (''42'' @ [CHR 0xA0]) = Some 42 \<and> py_int (CHR 0x1C # ''42'') = None"
  by (simp add: py_int_def strip_def is_space_def digit_val_def)

section \<open>The claims\<close>

text \<open>
  The claims about a cycle are stated for \<open>validate\<close>, the part of the loop body that
  runs once the connections of the cycle have been accepted; \<open>cycle_reaches_validate\<close>
  says how a cycle gets there.
\<close>

subsection \<open>C10: what a payload contributes\<close>

text \<open>
  C10. For an accepted connection whose first line parses as an integer batch id, the
  id is appended to \<^verbatim>\<open>gulps\<close>, and the remaining payload (the text after the first
  newline) is appended to the merged body exactly when it has at least two further
  newline-separated lines and the first of them is non-empty; otherwise the merged body
  is left as it was. The witness is the header-only payload \<^verbatim>\<open>"42\n"\<close>, whose id counts
  while its body is empty, next to a payload with one row.
\<close>

theorem payload_contribution:
  "py_int (first_line cf) = Some g \<Longrightarrow>
     gulps (read_client cf rs) = gulps rs @ [g] \<and>
     candsfile (read_client cf rs) =
       (if 2 \<le> length (further_lines cf) \<and> further_lines cf ! 0 \<noteq> []
        then candsfile rs @ remainder cf else candsfile rs)"
  by (simp add: read_client_eq id_part_def body_part_def)

theorem payload_contribution_witness:
  "py_int (first_line header_only) = Some 42 \<and>
   gulps (read_client header_only read_init) = [42] \<and>
   candsfile (read_client header_only read_init) = [] \<and>
   py_int (first_line rows42) = Some 42 \<and>
   gulps (read_client rows42 read_init) = [42] \<and>
   candsfile (read_client rows42 read_init) = ''10.5 7 13'' @ [NL]"
proof -
  have h: "py_int (first_line header_only) = Some 42"
    by (simp add: header_only_def ev)
  have f: "further_lines header_only = [[]]"
    by (simp add: header_only_def ev)
  have h': "py_int (first_line rows42) = Some 42"
    by (simp add: rows42_def ev)
  have f': "further_lines rows42 = [''10.5 7 13'', []]"
    by (simp add: rows42_def ev)
  have r': "remainder rows42 = ''10.5 7 13'' @ [NL]"
    by (simp add: rows42_def ev)
  show ?thesis
    using h f h' f' r' payload_contribution [OF h, of read_init]
      payload_contribution [OF h', of read_init]
    by (simp add: read_init_def)
qed

subsection \<open>C1: when a batch is forwarded\<close>

text \<open>
  C1, as amended. After the connections of a cycle have been accepted and read, the
  merged body is handed to the pipeline if and only if every accepted connection's
  payload began with a line that parses as an integer batch id, all parsed ids are
  identical, and the merged body is neither the empty string nor a single newline
  (the test of line 174). A body made of other whitespace is forwarded.
\<close>

theorem forwarded_iff:
  "forwarded (new_events w (validate e ports cls w)) \<longleftrightarrow>
     list_all parseable cls \<and> identical_ids (parsed_ids cls)
       \<and> merged_body cls \<noteq> [] \<and> merged_body cls \<noteq> [NL]"
proof (cases "length (parsed_ids cls) = length cls")
  case False
  show ?thesis
  proof (cases "list_all decoded cls")
    case True
    then show ?thesis using False
      by (simp add: validate_incomplete all_parseable_iff forwarded_def)
  next
    case undecoded: False
    from validate_raises [OF this] obtain err where "validate e ports cls w = Raised err w"
      by blast
    then show ?thesis using False by (simp add: all_parseable_iff forwarded_def)
  qed
next
  case len: True
  show ?thesis
  proof (cases "identical_ids (parsed_ids cls)")
    case False
    then show ?thesis using len
      by (simp add: validate_divergent new_events_resync forwarded_def
          no_forward_rebind no_forward_closed)
  next
    case same: True
    show ?thesis
    proof (cases "merged_body cls = [] \<or> merged_body cls = [NL]")
      case True
      show ?thesis
      proof (cases "cls = []")
        case True
        then show ?thesis by (simp add: validate_no_client forwarded_def merged_body_def)
      next
        case False
        then show ?thesis using len same True validate_empty [of cls e ports w]
          by (auto simp: forwarded_def)
      qed
    next
      case False
      then have "merged_body cls \<noteq> []" "merged_body cls \<noteq> [NL]" by simp_all
      from validate_forward [OF len same this, of w e ports]
      show ?thesis using len same False by (auto simp: forwarded_def all_parseable_iff)
    qed
  qed
qed

text \<open>The scenario of three sources sending the same id and the same row.\<close>

theorem forwarded_iff_witness:
  "forwarded (new_events w3 (validate env0 [5000, 5001, 5002] [Text rows42, Text rows42, Text rows42] w3))"
  using forwarded_iff [of w3 env0 "[5000, 5001, 5002]" "[Text rows42, Text rows42, Text rows42]"]
  by (simp add: rows42_def ev)

text \<open>
  C1 as stated fails: the payload \<^verbatim>\<open>"42\n \n"\<close> next to two header-only payloads gives
  the merged body \<^verbatim>\<open>" \n"\<close>, which is whitespace only and is forwarded.
\<close>

theorem blank_body_forwarded:
  "is_blank (merged_body [Text blank_rows, Text header_only, Text header_only]) \<and>
   forwarded (new_events w3 (validate env0 [5000, 5001, 5002] [Text blank_rows, Text header_only, Text header_only] w3))"
  by (simp add: blank_rows_def header_only_def ev is_blank_def validate_def decide_def read_client_def read_init_def
    new_events_def w3_def emit_def env0_def forwarded_def Let_def)

subsection \<open>C2: the empty gulp\<close>

text \<open>
  C2, as amended. When every accepted connection (there is at least one) produced a
  parseable batch id, all ids agree and the merged body is the empty string or a
  single newline, the cycle publishes the second heartbeat and status code 0, forwards
  nothing, and neither closes nor rebuilds an endpoint: the endpoint list is the one the
  cycle accepted on.
\<close>

theorem empty_gulp_status:
  assumes "cls \<noteq> []" "list_all parseable cls" "identical_ids (parsed_ids cls)"
    "merged_body cls = [] \<or> merged_body cls = [NL]"
  shows "validate e ports cls w = Continue (emit [PutGulp, GulpStatus 0] w) \<and>
    statuses (new_events w (validate e ports cls w)) = [0] \<and>
    ss (world_of (validate e ports cls w)) = ss w \<and>
    \<not> touches_endpoints (new_events w (validate e ports cls w)) \<and>
    \<not> forwarded (new_events w (validate e ports cls w))"
proof -
  from assms(2) have len: "length (parsed_ids cls) = length cls"
    by (simp add: all_parseable_iff)
  have eq: "validate e ports cls w = Continue (emit [PutGulp, GulpStatus 0] w)"
    by (rule validate_empty [OF assms(1) len assms(3,4)])
  show ?thesis unfolding eq
    by (simp add: statuses_def touches_endpoints_def forwarded_def) (simp add: emit_def)
qed

text \<open>Three header-only payloads \<^verbatim>\<open>"42\n"\<close>.\<close>

theorem empty_gulp_status_witness:
  "validate env0 [5000, 5001, 5002] [Text header_only, Text header_only, Text header_only] w3
     = Continue (emit [PutGulp, GulpStatus 0] w3) \<and>
   statuses (new_events w3
     (validate env0 [5000, 5001, 5002] [Text header_only, Text header_only, Text header_only] w3)) = [0] \<and>
   ss (world_of (validate env0 [5000, 5001, 5002] [Text header_only, Text header_only, Text header_only] w3))
     = ss w3"
proof -
  have a: "[Text header_only, Text header_only, Text header_only] \<noteq> []" by simp
  have b: "list_all parseable [Text header_only, Text header_only, Text header_only]"
    by (simp add: header_only_def ev)
  have c: "identical_ids (parsed_ids [Text header_only, Text header_only, Text header_only])"
    by (simp add: header_only_def ev)
  have d: "merged_body [Text header_only, Text header_only, Text header_only] = []
      \<or> merged_body [Text header_only, Text header_only, Text header_only] = [NL]"
    by (simp add: header_only_def ev)
  show ?thesis using empty_gulp_status [OF a b c d, of env0 "[5000, 5001, 5002]" w3]
    by blast
qed

text \<open>
  C2 as stated fails twice: for three header-only payloads the ids agree, the body is
  empty and the status published is 0, not a non-zero code; and a body of whitespace
  other than a single newline is not discarded but forwarded.
\<close>

theorem empty_gulp_status_zero:
  "identical_ids (parsed_ids [Text header_only, Text header_only, Text header_only]) \<and>
   merged_body [Text header_only, Text header_only, Text header_only] = [] \<and>
   statuses (new_events w3
     (validate env0 [5000, 5001, 5002] [Text header_only, Text header_only, Text header_only] w3)) = [0] \<and>
   identical_ids (parsed_ids [Text blank_rows, Text header_only, Text header_only]) \<and>
   is_blank (merged_body [Text blank_rows, Text header_only, Text header_only]) \<and>
   forwarded (new_events w3
     (validate env0 [5000, 5001, 5002] [Text blank_rows, Text header_only, Text header_only] w3))"
  by (simp add: header_only_def blank_rows_def ev is_blank_def run_defs w3_def env0_def)

subsection \<open>C3: the divergent gulp\<close>

text \<open>
  C3, as amended. When every accepted connection produced a parseable batch id and
  the ids are not all identical, nothing is forwarded, status code 2 is published, and
  before the cycle ends every listening endpoint is closed and a new socket is bound for
  each configured port in turn; the new endpoint list holds the sockets whose bind
  succeeded, so it has one endpoint per port when every bind succeeds.
\<close>

theorem divergent_resync:
  assumes "list_all parseable cls" "\<not> identical_ids (parsed_ids cls)"
  shows "validate e ports cls w = Continue (resync e ports w) \<and>
    new_events w (validate e ports cls w) =
      map Closed (ss w) @ rebind_events (rebuild_ok e) 0 ports (next_sid w) @ [GulpStatus 2] \<and>
    ss (world_of (validate e ports cls w)) =
      bound_socks (rebind_events (rebuild_ok e) 0 ports (next_sid w)) \<and>
    statuses (new_events w (validate e ports cls w)) = [2] \<and>
    \<not> forwarded (new_events w (validate e ports cls w)) \<and>
    ((\<forall>i<length ports. rebuild_ok e i) \<longrightarrow>
       map port (ss (world_of (validate e ports cls w))) = ports)"
proof -
  from assms(1) have len: "length (parsed_ids cls) = length cls"
    by (simp add: all_parseable_iff)
  have eq: "validate e ports cls w = Continue (resync e ports w)"
    by (rule validate_divergent [OF len assms(2)])
  have ok: "(\<forall>i<length ports. rebuild_ok e i) \<longrightarrow>
      map port (bound_socks (rebind_events (rebuild_ok e) 0 ports (next_sid w))) = ports"
    using rebind_all_ok [of ports "rebuild_ok e" 0 "next_sid w"] by simp
  have s: "ss (resync e ports w) = bound_socks (rebind_events (rebuild_ok e) 0 ports (next_sid w))"
    by (simp add: resync_eq)
  show ?thesis unfolding eq new_events_resync
    using ok s
    by (simp add: statuses_def forwarded_def statuses_rebind statuses_closed
        no_forward_rebind no_forward_closed)
qed

text \<open>Two sources send id 42 and one sends id 43.\<close>

theorem divergent_resync_witness:
  "new_events w3 (validate env0 [5000, 5001, 5002] [Text rows42, Text rows43, Text rows42] w3) =
     [Closed \<lparr>sid = 0, port = 5000\<rparr>, Closed \<lparr>sid = 1, port = 5001\<rparr>,
      Closed \<lparr>sid = 2, port = 5002\<rparr>, Bound \<lparr>sid = 3, port = 5000\<rparr>,
      Bound \<lparr>sid = 4, port = 5001\<rparr>, Bound \<lparr>sid = 5, port = 5002\<rparr>, GulpStatus 2] \<and>
   ss (world_of (validate env0 [5000, 5001, 5002] [Text rows42, Text rows43, Text rows42] w3)) =
     [\<lparr>sid = 3, port = 5000\<rparr>, \<lparr>sid = 4, port = 5001\<rparr>, \<lparr>sid = 5, port = 5002\<rparr>] \<and>
   statuses (new_events w3 (validate env0 [5000, 5001, 5002] [Text rows42, Text rows43, Text rows42] w3)) = [2]"
proof -
  have a: "list_all parseable [Text rows42, Text rows43, Text rows42]"
    by (simp add: rows42_def rows43_def ev)
  have b: "\<not> identical_ids (parsed_ids [Text rows42, Text rows43, Text rows42])"
    by (simp add: rows42_def rows43_def ev)
  have c: "map Closed (ss w3) @ rebind_events (rebuild_ok env0) 0 [5000, 5001, 5002] (next_sid w3)
      @ [GulpStatus 2] =
     [Closed \<lparr>sid = 0, port = 5000\<rparr>, Closed \<lparr>sid = 1, port = 5001\<rparr>,
      Closed \<lparr>sid = 2, port = 5002\<rparr>, Bound \<lparr>sid = 3, port = 5000\<rparr>,
      Bound \<lparr>sid = 4, port = 5001\<rparr>, Bound \<lparr>sid = 5, port = 5002\<rparr>, GulpStatus 2]"
    by (simp add: w3_def env0_def)
  have d: "bound_socks (rebind_events (rebuild_ok env0) 0 [5000, 5001, 5002] (next_sid w3)) =
     [\<lparr>sid = 3, port = 5000\<rparr>, \<lparr>sid = 4, port = 5001\<rparr>, \<lparr>sid = 5, port = 5002\<rparr>]"
    by (simp add: w3_def env0_def)
  note t = divergent_resync [OF a b, of env0 "[5000, 5001, 5002]" w3]
  from t have n: "new_events w3 (validate env0 [5000, 5001, 5002] [Text rows42, Text rows43, Text rows42] w3) =
      map Closed (ss w3) @ rebind_events (rebuild_ok env0) 0 [5000, 5001, 5002] (next_sid w3)
        @ [GulpStatus 2]"
    by blast
  from t have s: "ss (world_of (validate env0 [5000, 5001, 5002] [Text rows42, Text rows43, Text rows42] w3)) =
      bound_socks (rebind_events (rebuild_ok env0) 0 [5000, 5001, 5002] (next_sid w3))"
    by blast
  from t have st: "statuses (new_events w3
      (validate env0 [5000, 5001, 5002] [Text rows42, Text rows43, Text rows42] w3)) = [2]"
    by blast
  show ?thesis using trans [OF n c] trans [OF s d] st by blast
qed

text \<open>
  C3 as stated fails: with ids 42 and 43 from two sources and a third payload that does
  not start with an integer, two distinct parseable ids were received, but the count test
  of line 140 comes first: status 1 is published and no endpoint is closed or rebuilt.
\<close>

theorem divergent_but_incomplete:
  "\<not> identical_ids (parsed_ids [Text rows42, Text rows43, Text garbage]) \<and>
   statuses (new_events w3 (validate env0 [5000, 5001, 5002] [Text rows42, Text rows43, Text garbage] w3)) = [1] \<and>
   \<not> touches_endpoints
       (new_events w3 (validate env0 [5000, 5001, 5002] [Text rows42, Text rows43, Text garbage] w3)) \<and>
   ss (world_of (validate env0 [5000, 5001, 5002] [Text rows42, Text rows43, Text garbage] w3)) = ss w3"
  by (simp add: rows42_def rows43_def garbage_def ev run_defs w3_def env0_def)

subsection \<open>C4: the incomplete gulp\<close>

text \<open>
  C4, as amended. When the data of every accepted connection was received and decoded
  and fewer sources produced a parseable batch id than connections were accepted, status
  code 1 is published and the cycle ends there: nothing is forwarded, no endpoint is
  closed or bound, and the endpoint list is unchanged. The next cycle therefore accepts
  on the same endpoints: its build step keeps them at the head of the list, and does
  nothing at all when there is one endpoint per configured port.
\<close>

theorem incomplete_gulp:
  assumes "list_all decoded cls" "length (parsed_ids cls) < length cls"
  shows "validate e ports cls w = Continue (emit [GulpStatus 1] w) \<and>
    statuses (new_events w (validate e ports cls w)) = [1] \<and>
    ss (world_of (validate e ports cls w)) = ss w \<and>
    \<not> touches_endpoints (new_events w (validate e ports cls w)) \<and>
    \<not> forwarded (new_events w (validate e ports cls w)) \<and>
    (\<forall>e' w'. build_phase e' ports (world_of (validate e ports cls w)) = Inr w' \<longrightarrow>
       take (length (ss w)) (ss w') = ss w) \<and>
    (length (ss w) = length ports \<longrightarrow>
       (\<forall>e'. build_phase e' ports (world_of (validate e ports cls w))
          = Inr (world_of (validate e ports cls w))))"
proof -
  from assms(2) have ne: "length (parsed_ids cls) \<noteq> length cls" by simp
  have eq: "validate e ports cls w = Continue (emit [GulpStatus 1] w)"
    by (rule validate_incomplete [OF assms(1) ne])
  have s: "ss (emit [GulpStatus 1] w) = ss w" by (simp add: emit_def)
  have p: "\<forall>e' w'. build_phase e' ports (emit [GulpStatus 1] w) = Inr w' \<longrightarrow>
       take (length (ss w)) (ss w') = ss w"
    using build_phase_prefix [of _ ports "emit [GulpStatus 1] w"] s by auto
  show ?thesis unfolding eq
    using p s by (simp add: statuses_def touches_endpoints_def forwarded_def build_phase_def)
qed

text \<open>One of three sources sends text that does not start with an integer.\<close>

theorem incomplete_gulp_witness:
  "validate env0 [5000, 5001, 5002] [Text rows42, Text garbage, Text rows42] w3
     = Continue (emit [GulpStatus 1] w3) \<and>
   statuses (new_events w3
     (validate env0 [5000, 5001, 5002] [Text rows42, Text garbage, Text rows42] w3)) = [1] \<and>
   ss (world_of (validate env0 [5000, 5001, 5002] [Text rows42, Text garbage, Text rows42] w3))
     = ss w3 \<and>
   build_phase env0 [5000, 5001, 5002]
      (world_of (validate env0 [5000, 5001, 5002] [Text rows42, Text garbage, Text rows42] w3))
     = Inr (world_of
         (validate env0 [5000, 5001, 5002] [Text rows42, Text garbage, Text rows42] w3))"
proof -
  have d: "list_all decoded [Text rows42, Text garbage, Text rows42]" by simp
  have a: "length (parsed_ids [Text rows42, Text garbage, Text rows42])
      < length [Text rows42, Text garbage, Text rows42]"
    by (simp add: rows42_def garbage_def ev)
  have l: "length (ss w3) = length [5000, 5001, 5002 :: nat]" by (simp add: w3_def)
  show ?thesis using incomplete_gulp [OF d a, of env0 "[5000, 5001, 5002]" w3] l by blast
qed

text \<open>
  C4 as stated fails: when one of three sources sends bytes that are not UTF-8, only two
  sources produced a parseable id for three accepted connections, but \<^verbatim>\<open>decode\<close> at line
  120 raises outside the \<^verbatim>\<open>try\<close>: \<^verbatim>\<open>parse_socket\<close> ends with the exception and no status
  code is published.
\<close>

theorem undecodable_source_raises:
  "length (parsed_ids [Text rows42, UndecodableBytes, Text rows42])
     < length [Text rows42, UndecodableBytes, Text rows42] \<and>
   validate env0 [5000, 5001, 5002] [Text rows42, UndecodableBytes, Text rows42] w3
     = Raised UnicodeDecodeError w3 \<and>
   statuses (new_events w3
     (validate env0 [5000, 5001, 5002] [Text rows42, UndecodableBytes, Text rows42] w3)) = []"
  by (simp add: rows42_def ev run_defs w3_def env0_def)

subsection \<open>C9: the second heartbeat\<close>

text \<open>
  C9, as amended. The write to \<^verbatim>\<open>/mon/service/T2gulp\<close> happens in a cycle exactly when
  every accepted connection (there is at least one) produced a parseable batch id and
  all ids are identical. A cycle discarded as incomplete or divergent never publishes
  it; a cycle whose body turns out empty has already published it.
\<close>

theorem gulp_heartbeat_iff:
  "PutGulp \<in> set (new_events w (validate e ports cls w)) \<longleftrightarrow>
     cls \<noteq> [] \<and> list_all parseable cls \<and> identical_ids (parsed_ids cls)"
proof (cases "length (parsed_ids cls) = length cls")
  case False
  show ?thesis
  proof (cases "list_all decoded cls")
    case True
    then show ?thesis using False by (simp add: validate_incomplete all_parseable_iff)
  next
    case undecoded: False
    from validate_raises [OF this] obtain err where "validate e ports cls w = Raised err w"
      by blast
    then show ?thesis using False by (simp add: all_parseable_iff)
  qed
next
  case len: True
  show ?thesis
  proof (cases "identical_ids (parsed_ids cls)")
    case False
    then show ?thesis using len
      by (simp add: validate_divergent new_events_resync no_gulp_rebind no_gulp_closed)
  next
    case same: True
    show ?thesis
    proof (cases "merged_body cls = [] \<or> merged_body cls = [NL]")
      case True
      show ?thesis
      proof (cases "cls = []")
        case True
        then show ?thesis by (simp add: validate_no_client)
      next
        case False
        then show ?thesis using len same True validate_empty [of cls e ports w]
          by (auto simp: all_parseable_iff)
      qed
    next
      case False
      then have b: "merged_body cls \<noteq> []" "merged_body cls \<noteq> [NL]" by simp_all
      then have "cls \<noteq> []" by (auto simp: merged_body_def)
      with validate_forward [OF len same b, of w e ports]
      show ?thesis using len same by (auto simp: all_parseable_iff)
    qed
  qed
qed

text \<open>An accepted gulp, a divergent one and an incomplete one.\<close>

theorem gulp_heartbeat_iff_witness:
  "PutGulp \<in> set (new_events w3 (validate env0 [5000, 5001, 5002] [Text rows42, Text rows42, Text rows42] w3)) \<and>
   PutGulp \<notin> set (new_events w3 (validate env0 [5000, 5001, 5002] [Text rows42, Text rows43, Text rows42] w3)) \<and>
   PutGulp \<notin> set (new_events w3 (validate env0 [5000, 5001, 5002] [Text rows42, Text garbage, Text rows42] w3))"
  using gulp_heartbeat_iff [of w3 env0 "[5000, 5001, 5002]" "[Text rows42, Text rows42, Text rows42]"]
    gulp_heartbeat_iff [of w3 env0 "[5000, 5001, 5002]" "[Text rows42, Text rows43, Text rows42]"]
    gulp_heartbeat_iff [of w3 env0 "[5000, 5001, 5002]" "[Text rows42, Text garbage, Text rows42]"]
  by (simp add: rows42_def rows43_def garbage_def ev)

text \<open>
  C9 as stated fails: three header-only payloads give an empty body, nothing is
  forwarded, and the heartbeat is published all the same (line 169 precedes line 174).
\<close>

theorem empty_gulp_heartbeat:
  "merged_body [Text header_only, Text header_only, Text header_only] = [] \<and>
   \<not> forwarded (new_events w3
     (validate env0 [5000, 5001, 5002] [Text header_only, Text header_only, Text header_only] w3)) \<and>
   PutGulp \<in> set (new_events w3
     (validate env0 [5000, 5001, 5002] [Text header_only, Text header_only, Text header_only] w3))"
  by (simp add: header_only_def ev run_defs w3_def env0_def)

subsection \<open>C7: the beam-activity window\<close>

text \<open>
  C7. Whatever calls of \<^verbatim>\<open>cluster_and_plot\<close> the process has made since the window was
  created empty, the window holds at most 10 entries; after 11 calls it holds the counts
  pushed by the second to the eleventh call, in order, so the entry pushed first has been
  evicted; its value is absent from the window unless a later call pushed the same value.
\<close>

theorem window_bounded:
  "length (queue_after ext as nbeams_queue_init) \<le> 10 \<and>
   (length as = 11 \<longrightarrow> queue_after ext as nbeams_queue_init = map (pushed ext) (tl as)) \<and>
   (length as = 11 \<and> pushed ext (hd as) \<notin> set (map (pushed ext) (tl as)) \<longrightarrow>
      pushed ext (hd as) \<notin> set (queue_after ext as nbeams_queue_init))"
proof -
  have eq: "queue_after ext as nbeams_queue_init = drop (length as - 10) (map (pushed ext) as)"
    using queue_after_eq [of "[]" ext as] by (simp add: nbeams_queue_init_def)
  have "length as = 11 \<Longrightarrow> drop (length as - 10) (map (pushed ext) as) = map (pushed ext) (tl as)"
    by (simp add: drop_Suc map_tl)
  then show ?thesis unfolding eq by auto
qed

text \<open>Eleven calls pushing the counts 1 to 11: the window is 2 to 11.\<close>

theorem window_bounded_witness:
  "length calls11 = 11 \<and>
   map (pushed ext0) calls11 = [1, 2, 3, 4, 5, 6, 7, 8, 9, 10, 11] \<and>
   queue_after ext0 calls11 nbeams_queue_init = [2, 3, 4, 5, 6, 7, 8, 9, 10, 11] \<and>
   pushed ext0 (hd calls11) \<notin> set (queue_after ext0 calls11 nbeams_queue_init)"
proof -
  have l: "length calls11 = 11" by (simp add: calls11_def)
  have m: "map (pushed ext0) calls11 = [1, 2, 3, 4, 5, 6, 7, 8, 9, 10, 11]"
    by (simp add: calls11_def pushed_def ext0_def args_of_def)
  have t: "map (pushed ext0) (tl calls11) = [2, 3, 4, 5, 6, 7, 8, 9, 10, 11]"
    by (simp add: calls11_def pushed_def ext0_def args_of_def)
  have h: "pushed ext0 (hd calls11) = 1"
    by (simp add: calls11_def pushed_def ext0_def args_of_def)
  from window_bounded [of ext0 calls11] l
  have "queue_after ext0 calls11 nbeams_queue_init = map (pushed ext0) (tl calls11)" by blast
  with l m t h show ?thesis by simp
qed

subsection \<open>C8: binding the endpoints\<close>

text \<open>
  C8 holds for the rebuild after a divergent gulp (\<open>rebind_ports\<close> skips a port whose
  bind fails, as \<open>rebind_ports_eq\<close> shows) and fails for the build at loop entry: there
  \<^verbatim>\<open>s.bind\<close> is not inside a \<^verbatim>\<open>try\<close>, and a bind failure on the second of three ports
  ends \<^verbatim>\<open>parse_socket\<close> with the \<^verbatim>\<open>OSError\<close>, the first port bound and the third never
  tried.
\<close>

theorem initial_bind_failure:
  "cycle env_fail [5000, 5001, 5002] w0 =
     Raised OSError
       (w0\<lparr>ss := [\<lparr>sid = 0, port = 5000\<rparr>], next_sid := 2,
           trace := [Bound \<lparr>sid = 0, port = 5000\<rparr>]\<rparr>)"
  by (simp add: cycle_def build_phase_def env_fail_def w0_def world_init_def emit_def Let_def)

text \<open>The same failure in the rebuild: the port is skipped and the loop goes on.\<close>

lemma rebuild_bind_failure_skipped:
  "ss (resync env_fail [5000, 5001, 5002] w3) = [\<lparr>sid = 3, port = 5000\<rparr>, \<lparr>sid = 5, port = 5002\<rparr>] \<and>
   new_events w3 (Continue (resync env_fail [5000, 5001, 5002] w3)) =
     [Closed \<lparr>sid = 0, port = 5000\<rparr>, Closed \<lparr>sid = 1, port = 5001\<rparr>,
      Closed \<lparr>sid = 2, port = 5002\<rparr>, Bound \<lparr>sid = 3, port = 5000\<rparr>,
      BindFailed 5001, Bound \<lparr>sid = 5, port = 5002\<rparr>, GulpStatus 2]"
  by (simp add: new_events_def resync_eq env_fail_def w3_def)

subsection \<open>C6: the wide fraction of a singleton cluster\<close>

text \<open>
  C6. For every candidate table with at least one row, the cluster of the row of
  maximal signal-to-noise ratio is found, the division of lines 299-301 has a non-zero
  divisor (the cluster contains that row), and when the cluster has exactly one member
  the value of \<^verbatim>\<open>frac_wide\<close> is exactly 0.
\<close>

theorem singleton_frac_wide:
  assumes "tab \<noteq> []"
  shows "\<exists>c. cl_max_of tab = Inr c \<and> frac_wide_div tab c \<noteq> None \<and>
     (length (cl_ibox tab c) = 1 \<longrightarrow> frac_wide tab = Inr (Some 0))"
proof -
  from cl_max_of_member [OF assms] obtain i where
    i: "i < length tab" "cl_max_of tab = Inr (cl (tab ! i))" by auto
  have "cl_ibox tab (cl (tab ! i)) \<noteq> []" by (rule cl_ibox_nonempty [OF i(1)])
  then have "frac_wide_div tab (cl (tab ! i)) \<noteq> None"
    by (simp add: frac_wide_div_def np_div_def)
  then show ?thesis using i(2) by (simp add: frac_wide_def)
qed

text \<open>
  A table of three rows whose strongest row is alone in cluster 1: the division gives
  1/1 and the value kept is 0.
\<close>

theorem singleton_frac_wide_witness:
  "tab_single \<noteq> [] \<and> cl_max_of tab_single = Inr 1 \<and> length (cl_ibox tab_single 1) = 1 \<and>
   frac_wide_div tab_single 1 = Some 1 \<and> frac_wide tab_single = Inr (Some 0)"
proof -
  have a: "tab_single \<noteq> []" by (simp add: tab_single_def)
  have c: "cl_max_of tab_single = Inr 1"
    by (simp add: tab_single_def cl_max_of_def np_max_def)
  have l: "length (cl_ibox tab_single 1) = 1" by (simp add: tab_single_def cl_ibox_def)
  have d: "frac_wide_div tab_single 1 = Some 1"
    by (simp add: tab_single_def frac_wide_div_def cl_ibox_def np_div_def)
  from singleton_frac_wide [OF a] c l have "frac_wide tab_single = Inr (Some 0)" by auto
  with a c l d show ?thesis by simp
qed

subsection \<open>C5: the width filter\<close>

text \<open>
  C5, as amended. For every batch whose peak-row set has more than 15 rows of which
  more than 85% have boxcar index 64, the width filter is set, the trigger and naming
  step (\<^verbatim>\<open>dump_cluster_results_json\<close>) is not invoked, whatever \<^verbatim>\<open>filter_clustered\<close>
  lets through, and the result carries the flag whenever the function returns one (the
  clustered table has a row).
\<close>

theorem saturation_suppresses_trigger:
  assumes "tab2 = get_peak ext (cluster_data ext (a_tab a))"
    and "15 < length tab2" and "85 * length tab2 < 100 * count64 tab2"
  shows "ibox64_filter tab2 \<and> \<not> trigger_invoked (snd (cluster_and_plot ext a q)) \<and>
    (cluster_data ext (a_tab a) \<noteq> [] \<longrightarrow> flagged (snd (cluster_and_plot ext a q)))"
proof -
  have f: "ibox64_filter tab2" using assms(2,3) by (simp add: ibox64_filter_iff)
  have f': "ibox64_filter (get_peak ext (cluster_data ext (a_tab a)))"
    using f assms(1) by simp
  have n: "\<not> trigger_invoked (snd (cluster_and_plot ext a q))"
    using f' by (simp add: cap_result_cases trigger_invoked_def Let_def split: sum.splits)
  have g: "cluster_data ext (a_tab a) \<noteq> [] \<longrightarrow> flagged (snd (cluster_and_plot ext a q))"
  proof
    assume "cluster_data ext (a_tab a) \<noteq> []"
    from frac_wide_total [OF this] obtain fw where
      "frac_wide (cluster_data ext (a_tab a)) = Inr fw" by blast
    then show "flagged (snd (cluster_and_plot ext a q))"
      using f' by (simp add: cap_result_cases flagged_def Let_def)
  qed
  from f n g show ?thesis by blast
qed

text \<open>Sixteen peak rows, all of boxcar index 64, with an output root and a non-empty filtered set.\<close>

theorem saturation_suppresses_trigger_witness:
  "15 < length tab16 \<and> 85 * length tab16 < 100 * count64 tab16 \<and>
   filter_clustered ext0 tab16 \<noteq> [] \<and>
   ibox64_filter tab16 \<and> \<not> trigger_invoked (snd (cluster_and_plot ext0 (args_of tab16) [])) \<and>
   flagged (snd (cluster_and_plot ext0 (args_of tab16) []))"
proof -
  have a: "tab16 = get_peak ext0 (cluster_data ext0 (a_tab (args_of tab16)))"
    by (simp add: ext0_def args_of_def)
  have b: "15 < length tab16" by (simp add: count_tab16)
  have c: "85 * length tab16 < 100 * count64 tab16" by (simp add: count_tab16)
  have d: "cluster_data ext0 (a_tab (args_of tab16)) \<noteq> []"
    using b by (auto simp: ext0_def args_of_def)
  have e: "filter_clustered ext0 tab16 \<noteq> []" using b by (auto simp: ext0_def)
  from saturation_suppresses_trigger [OF a b c, of "[]"] d b c e show ?thesis by blast
qed

text \<open>
  C5 as stated fails at the boundary: with 20 peak rows of which 17, exactly 85%, have
  boxcar index 64, the test \<^verbatim>\<open>ibox64_cnt > 0.85\<close> is false, the batch is not flagged and
  the trigger step is invoked.
\<close>

theorem exactly_85_percent_triggers:
  "15 < length tab20 \<and> 85 * length tab20 \<le> 100 * count64 tab20 \<and>
   \<not> ibox64_filter tab20 \<and>
   \<not> flagged (snd (cluster_and_plot ext0 (args_of tab20) [])) \<and>
   trigger_invoked (snd (cluster_and_plot ext0 (args_of tab20) []))"
proof -
  have n: "\<not> ibox64_filter tab20" by (simp add: ibox64_filter_iff count_tab20)
  have ne: "tab20 \<noteq> []" using count_tab20 by auto
  from frac_wide_total [OF ne] obtain fw where fw: "frac_wide tab20 = Inr fw" by blast
  show ?thesis using n ne fw
    by (simp add: count_tab20 cap_result_cases ext0_def args_of_def
        flagged_def trigger_invoked_def)
qed

end
